theory Spec2Isabelle
  imports Complex_Main "HOL-Library.Word" "HOL-Library.Sublist" "HOL-Library.Log_Nat"
begin

section \<open>Strings of the source language\<close>

text \<open>
  A string of the source language is a sequence of 16-bit code units. Literals of the
  source are written \<open>lit ''...''\<close>: every character of such a literal is ASCII, so
  its code unit is the character's code.
\<close>

type_synonym code_unit = "16 word"
type_synonym jsstring = "code_unit list"

definition lit :: "string \<Rightarrow> jsstring" where
  "lit s = map of_char s"

definition LF :: code_unit where
  "LF = 0x0A"

definition comma :: code_unit where
  "comma = 0x2C"

definition dash :: code_unit where
  "dash = 0x2D"

text \<open>
  The code units that \<open>String.prototype.trim\<close> strips and that \<open>\s\<close> matches in a
  regular expression: the white space and line terminator code points of the language
  (TAB, LF, VT, FF, CR, SP, NBSP, the Unicode space separators, LS, PS and the BOM).
\<close>

definition is_ws :: "code_unit \<Rightarrow> bool" where
  "is_ws c \<longleftrightarrow>
     c = 0x09 \<or> c = 0x0A \<or> c = 0x0B \<or> c = 0x0C \<or> c = 0x0D \<or> c = 0x20 \<or>
     c = 0xA0 \<or> c = 0x1680 \<or> (0x2000 \<le> c \<and> c \<le> 0x200A) \<or>
     c = 0x2028 \<or> c = 0x2029 \<or> c = 0x202F \<or> c = 0x205F \<or> c = 0x3000 \<or>
     c = 0xFEFF"

text \<open>\<open>s.trim()\<close>: white space removed at both ends.\<close>

definition trim :: "jsstring \<Rightarrow> jsstring" where
  "trim s = rev (dropWhile is_ws (rev (dropWhile is_ws s)))"

text \<open>
  \<open>s.split(c)\<close> for a separator of one code unit: the pieces between the
  separators, in order; a string without separator (the empty string too) is one piece.
  The rest of a string always has a first piece, so the branch for no piece is never
  taken (lemma \<open>split_on_not_Nil\<close>).
\<close>

fun split_on :: "code_unit \<Rightarrow> jsstring \<Rightarrow> jsstring list" where
  "split_on c [] = [[]]"
| "split_on c (x # xs) =
     (case split_on c xs of
        [] \<Rightarrow> [[x]]
      | piece # pieces \<Rightarrow> if x = c then [] # piece # pieces else (x # piece) # pieces)"

text \<open>
  \<open>s.replace(pat, rep)\<close> for a string pattern: the first occurrence of \<open>pat\<close>,
  scanning from the left, is replaced; a string without occurrence is unchanged.
\<close>

fun replace_first :: "jsstring \<Rightarrow> jsstring \<Rightarrow> jsstring \<Rightarrow> jsstring" where
  "replace_first pat rep [] = (if pat = [] then rep else [])"
| "replace_first pat rep (x # xs) =
     (if prefix pat (x # xs) then rep @ drop (length pat) (x # xs)
      else x # replace_first pat rep xs)"

text \<open>
  \<open>s.replace(/^-\s*/, '')\<close>: a dash at the very start of the string is removed
  together with the white space that follows it; any other string is unchanged.
\<close>

fun strip_bullet :: "jsstring \<Rightarrow> jsstring" where
  "strip_bullet [] = []"
| "strip_bullet (x # xs) = (if x = dash then dropWhile is_ws xs else x # xs)"

section \<open>The recommendation record and its parser\<close>

text \<open>
  The interface \<open>Recommendation\<close>: four required strings and six optional fields. A
  number of the source is modelled by its exact value.
\<close>

record recommendation =
  title :: jsstring
  description :: jsstring
  date :: jsstring
  location :: jsstring
  price :: "jsstring option"
  categories :: "jsstring list option"
  url :: "jsstring option"
  relevance_score :: "rat option"
  reasoning :: "jsstring option"
  personalization :: "jsstring option"

text \<open>
  What a \<open>throw\<close> carries: a \<open>TypeError\<close> raised by the engine (a read of a property
  of \<open>undefined\<close> or \<open>null\<close>), an \<open>Error\<close> object made with a message, or any other
  value.
\<close>

datatype js_error = TypeError | ErrorObject jsstring | OtherValue

definition label_description :: jsstring where
  "label_description = lit ''Description:''"

definition label_location :: jsstring where
  "label_location = lit ''Location:''"

definition label_date :: jsstring where
  "label_date = lit ''Date:''"

definition label_price :: jsstring where
  "label_price = lit ''Price:''"

definition label_categories :: jsstring where
  "label_categories = lit ''Categories:''"

definition no_description :: jsstring where
  "no_description = lit ''No description available''"

definition no_location :: jsstring where
  "no_location = lit ''Location not specified''"

definition no_date :: jsstring where
  "no_date = lit ''Date not specified''"

text \<open>\<open>text.split('\n').filter(line => line.trim() !== '')\<close>\<close>

definition nonempty_lines :: "jsstring \<Rightarrow> jsstring list" where
  "nonempty_lines text = filter (\<lambda>line. trim line \<noteq> []) (split_on LF text)"

text \<open>
  \<open>lines.find(line => line.trim().startsWith(label))?.replace(label, '').trim()\<close>:
  \<open>None\<close> is \<open>undefined\<close>, the value of the optional chain when no line is found.
\<close>

definition labelled :: "jsstring \<Rightarrow> jsstring list \<Rightarrow> jsstring option" where
  "labelled label lines =
     map_option (\<lambda>line. trim (replace_first label [] line))
       (find (\<lambda>line. prefix label (trim line)) lines)"

text \<open>
  \<open>v || fallback\<close> on a string or \<open>undefined\<close>: the fallback replaces
  \<open>undefined\<close> and the empty string, the two falsy values.
\<close>

definition or_else :: "jsstring option \<Rightarrow> jsstring \<Rightarrow> jsstring" where
  "or_else v fallback = (case v of None \<Rightarrow> fallback | Some s \<Rightarrow> if s = [] then fallback else s)"

text \<open>
  \<open>parseRecommendation\<close>. The read \<open>lines[0]\<close> of an empty array gives
  \<open>undefined\<close>, and the call of \<open>replace\<close> on it throws a \<open>TypeError\<close>: that is the
  \<open>Inl\<close> branch. \<open>Inr None\<close> is the result \<open>null\<close>.
\<close>

definition parseRecommendation :: "jsstring \<Rightarrow> js_error + recommendation option" where
  "parseRecommendation text =
     (let lines = nonempty_lines text in
      if length lines < 2 then Inr None
      else
        (case lines of
           [] \<Rightarrow> Inl TypeError
         | first # _ \<Rightarrow>
             Inr (Some \<lparr>
               title = trim (strip_bullet first),
               description = or_else (labelled label_description lines) no_description,
               date = or_else (labelled label_date lines) no_date,
               location = or_else (labelled label_location lines) no_location,
               price = labelled label_price lines,
               categories =
                 map_option (\<lambda>v. map trim (split_on comma v)) (labelled label_categories lines),
               url = None,
               relevance_score = None,
               reasoning = None,
               personalization = None \<rparr>)))"

subsection \<open>The parser as the specification words it\<close>

text \<open>
  The value of a field in the words of the specification: among the given lines, the
  first one whose trimmed content starts with the label; of that line, the part of the
  trimmed content after the label, trimmed.
\<close>

definition after_label :: "jsstring \<Rightarrow> jsstring list \<Rightarrow> jsstring option" where
  "after_label label lines =
     map_option (\<lambda>line. trim (drop (length label) (trim line)))
       (find (\<lambda>line. prefix label (trim line)) lines)"

text \<open>
  The reading of a field with a fallback that looks only at the lines strictly after the
  title line and takes the fallback exactly when no labelled line is there.
\<close>

definition claimed_field :: "jsstring \<Rightarrow> jsstring \<Rightarrow> jsstring list \<Rightarrow> jsstring" where
  "claimed_field label fallback lines =
     (case after_label label (tl lines) of None \<Rightarrow> fallback | Some v \<Rightarrow> v)"

text \<open>The reading of the categories value that drops the pieces empty after trimming.\<close>

definition claimed_categories :: "jsstring \<Rightarrow> jsstring list" where
  "claimed_categories v = filter (\<lambda>piece. piece \<noteq> []) (map trim (split_on comma v))"

section \<open>Rendering a recommendation\<close>

subsection \<open>Category tags\<close>

text \<open>
  \<open>new Set(xs)\<close> adds the elements of \<open>xs\<close> one after the other; an element equal
  to one already in the set is not added again, and the set keeps the order of
  insertion. \<open>Array.from\<close> lists the set in that order. \<open>seen\<close> is the set built so far.
\<close>

fun set_add_all :: "'a list \<Rightarrow> 'a list \<Rightarrow> 'a list" where
  "set_add_all seen [] = seen"
| "set_add_all seen (x # xs) =
     (if x \<in> set seen then set_add_all seen xs else set_add_all (seen @ [x]) xs)"

text \<open>
  \<open>rec.categories && (... Array.from(new Set(rec.categories)).map(...) ...)\<close>: the
  texts of the tags in the order of the page; \<open>None\<close> when \<open>categories\<close> is
  \<open>undefined\<close> and nothing is rendered.
\<close>

definition category_tags :: "recommendation \<Rightarrow> jsstring list option" where
  "category_tags r = map_option (set_add_all []) (categories r)"

text \<open>The position at which an element appears first in a list.\<close>

definition first_index :: "'a list \<Rightarrow> 'a \<Rightarrow> nat" where
  "first_index xs x = length (takeWhile (\<lambda>y. y \<noteq> x) xs)"

text \<open>A list with every element kept at its first appearance only.\<close>

fun first_occurrences :: "'a list \<Rightarrow> 'a list" where
  "first_occurrences [] = []"
| "first_occurrences (x # xs) = x # filter (\<lambda>y. y \<noteq> x) (first_occurrences xs)"

subsection \<open>Numbers\<close>

text \<open>
  A number of the source is a binary64 floating-point value; a finite one is modelled
  by its exact rational value, both zeros by \<open>0\<close>. \<open>to_double\<close> rounds a rational to
  the nearest binary64 value, ties to the even significand; \<open>None\<close> is the overflow to
  an infinity. The product \<open>x * y\<close> of the source is \<open>to_double (x * y)\<close>.
\<close>

definition pow2 :: "int \<Rightarrow> rat" where
  "pow2 e = (if 0 \<le> e then 2 ^ nat e else 1 / 2 ^ nat (- e))"

text \<open>The integer \<open>k\<close> with \<open>2 ^ k \<le> x < 2 ^ (k + 1)\<close>, for a positive \<open>x\<close>.\<close>

definition ilog2 :: "rat \<Rightarrow> int" where
  "ilog2 x =
     (let k = bitlen (fst (quotient_of x)) - bitlen (snd (quotient_of x))
      in if pow2 k \<le> x then k else k - 1)"

definition round_ties_even :: "rat \<Rightarrow> int" where
  "round_ties_even x =
     (if x - of_int \<lfloor>x\<rfloor> < 1 / 2 then \<lfloor>x\<rfloor>
      else if 1 / 2 < x - of_int \<lfloor>x\<rfloor> then \<lfloor>x\<rfloor> + 1
      else if even \<lfloor>x\<rfloor> then \<lfloor>x\<rfloor> else \<lfloor>x\<rfloor> + 1)"

definition to_double :: "rat \<Rightarrow> rat option" where
  "to_double x =
     (if x = 0 then Some 0
      else
        (let e = max (ilog2 \<bar>x\<bar> - 52) (- 1074);
             y = of_int (round_ties_even (\<bar>x\<bar> / pow2 e)) * pow2 e
         in if 2 ^ 1024 \<le> y then None else Some (sgn x * y)))"

fun decimal :: "nat \<Rightarrow> jsstring" where
  "decimal n =
     (if n < 10 then [of_nat (0x30 + n)]
      else decimal (n div 10) @ [of_nat (0x30 + n mod 10)])"

declare decimal.simps [simp del]

text \<open>
  \<open>x.toFixed(0)\<close> for a finite \<open>x\<close> below \<open>10 ^ 21\<close> in absolute value: the sign, then
  the integer nearest to the absolute value, the larger one when two are as near.
  \<open>None\<close> stands for the values from \<open>10 ^ 21\<close> on, which are printed in exponent
  notation and are not modelled.
\<close>

definition toFixed0 :: "rat \<Rightarrow> jsstring option" where
  "toFixed0 x =
     (if 10 ^ 21 \<le> \<bar>x\<bar> then None
      else Some ((if x < 0 then lit ''-'' else []) @ decimal (nat \<lfloor>\<bar>x\<bar> + 1 / 2\<rfloor>)))"

text \<open>\<open>(rec.relevance_score * 100).toFixed(0)\<close>\<close>

definition percent_text :: "rat \<Rightarrow> jsstring option" where
  "percent_text score = Option.bind (to_double (score * 100)) toFixed0"

subsection \<open>The relevance line\<close>

text \<open>
  \<open>{rec.relevance_score && (<div> ... Relevance: {(rec.relevance_score * 100).toFixed(0)}% </div>)}\<close>.
  The operator \<open>&&\<close> gives its left operand when that is falsy. For a score that is
  \<open>undefined\<close> the child is \<open>undefined\<close> and nothing is rendered. For the score \<open>0\<close> the
  child is the number \<open>0\<close>, which is rendered as the text \<open>0\<close>. For any other score the
  child is the line with the percentage. \<open>OutsideModel\<close> is the line for a product that
  \<open>percent_text\<close> does not model.
\<close>

datatype relevance_view = NotRendered | BareText jsstring | RelevanceLine jsstring | OutsideModel

definition render_relevance :: "recommendation \<Rightarrow> relevance_view" where
  "render_relevance r =
     (case relevance_score r of
        None \<Rightarrow> NotRendered
      | Some score \<Rightarrow>
          if score = 0 then BareText (lit ''0'')
          else
            (case percent_text score of
               None \<Rightarrow> OutsideModel
             | Some p \<Rightarrow> RelevanceLine (lit ''Relevance: '' @ p @ lit ''%'')))"

section \<open>The submit handlers\<close>

text \<open>A value of the source language as a response body can hold it.\<close>

datatype jsval =
    JUndefined
  | JNull
  | JBool bool
  | JNum rat
  | JStr jsstring
  | JArr "jsval list"
  | JObj "(jsstring \<times> jsval) list"

text \<open>
  The read \<open>v.name\<close> of a property that is no built-in of strings, numbers, booleans or
  arrays (such as \<open>recommendations\<close>): it throws on \<open>undefined\<close> and \<open>null\<close>, looks the
  name up in an object, and is \<open>undefined\<close> on every other value.
\<close>

fun get_property :: "jsval \<Rightarrow> jsstring \<Rightarrow> js_error + jsval" where
  "get_property JUndefined name = Inl TypeError"
| "get_property JNull name = Inl TypeError"
| "get_property (JObj props) name =
     Inr (case map_of props name of None \<Rightarrow> JUndefined | Some v \<Rightarrow> v)"
| "get_property v name = Inr JUndefined"

text \<open>
  The outcome of an awaited call: its value, the value it rejects with, or no outcome
  because the call never settles.
\<close>

datatype 'a settled = Fulfilled 'a | Rejected js_error | Pending

text \<open>
  How a block of statements ends, with the state it leaves: it completes, it throws, or
  it stays suspended at an \<open>await\<close> that never settles.
\<close>

datatype 's run = Returned 's | Uncaught js_error 's | Suspended 's

text \<open>\<open>try { ... } catch (err) { handler }\<close> and \<open>... finally { cleanup }\<close>\<close>

fun catch_block :: "(js_error \<Rightarrow> 's \<Rightarrow> 's) \<Rightarrow> 's run \<Rightarrow> 's run" where
  "catch_block handler (Uncaught e s) = Returned (handler e s)"
| "catch_block handler r = r"

fun finally_block :: "('s \<Rightarrow> 's) \<Rightarrow> 's run \<Rightarrow> 's run" where
  "finally_block cleanup (Returned s) = Returned (cleanup s)"
| "finally_block cleanup (Uncaught e s) = Uncaught e (cleanup s)"
| "finally_block cleanup (Suspended s) = Suspended s"

subsection \<open>The handler of the card view\<close>

text \<open>
  The part of the component state that \<open>handleSubmit\<close> writes. The array handed to
  \<open>setRecommendations\<close> is stored as it arrives.
\<close>

record app_state =
  recommendations :: "jsval list"
  loading :: bool
  error :: jsstring

text \<open>The body of the \<open>try\<close> block; \<open>post\<close> is the outcome of \<open>await axios.post(...)\<close>,
  with the field \<open>data\<close> of the response as its value.\<close>

definition submit_try :: "app_state \<Rightarrow> jsval settled \<Rightarrow> app_state run" where
  "submit_try s post =
     (case post of
        Pending \<Rightarrow> Suspended s
      | Rejected e \<Rightarrow> Uncaught e s
      | Fulfilled data \<Rightarrow>
          (case get_property data (lit ''recommendations'') of
             Inl e \<Rightarrow> Uncaught e s
           | Inr (JArr items) \<Rightarrow> Returned (s\<lparr>recommendations := items\<rparr>)
           | Inr other \<Rightarrow> Returned (s\<lparr>error := lit ''Invalid response format from server''\<rparr>)))"

definition handleSubmit :: "app_state \<Rightarrow> jsval settled \<Rightarrow> app_state run" where
  "handleSubmit s post =
     finally_block (\<lambda>s. s\<lparr>loading := False\<rparr>)
       (catch_block
          (\<lambda>err s. s\<lparr>error := lit ''Failed to fetch recommendations. Please try again.''\<rparr>)
          (submit_try (s\<lparr>loading := True, error := [], recommendations := []\<rparr>) post))"

subsection \<open>The handler of the event finder\<close>

text \<open>\<open>RecommendationRequest\<close> and the component state of \<open>frontend/src/App.tsx\<close>.\<close>

record recommendation_request =
  zip_code :: jsstring
  interests :: "jsstring list"

record finder_state =
  preferences :: recommendation_request
  events :: jsval
  loading :: bool
  error :: "jsstring option"
  interestsInput :: jsstring

text \<open>
  \<open>v.length === 0\<close>: the read throws on \<open>undefined\<close> and \<open>null\<close>; an array and a string
  have their length, an object has what its property \<open>length\<close> holds, and any other
  value has none.
\<close>

fun length_is_zero :: "jsval \<Rightarrow> js_error + bool" where
  "length_is_zero JUndefined = Inl TypeError"
| "length_is_zero JNull = Inl TypeError"
| "length_is_zero (JArr items) = Inr (items = [])"
| "length_is_zero (JStr s) = Inr (s = [])"
| "length_is_zero (JObj props) = Inr (map_of props (lit ''length'') = Some (JNum 0))"
| "length_is_zero v = Inr False"

text \<open>The body of the \<open>try\<close> block; \<open>outcome\<close> is that of
  \<open>await getRecommendations(preferences)\<close>.\<close>

definition find_try :: "finder_state \<Rightarrow> jsval settled \<Rightarrow> finder_state run" where
  "find_try s outcome =
     (case outcome of
        Pending \<Rightarrow> Suspended s
      | Rejected e \<Rightarrow> Uncaught e s
      | Fulfilled response \<Rightarrow>
          (case get_property response (lit ''recommendations'') of
             Inl e \<Rightarrow> Uncaught e s
           | Inr recs \<Rightarrow>
               (case length_is_zero recs of
                  Inl e \<Rightarrow> Uncaught e (s\<lparr>events := recs\<rparr>)
                | Inr True \<Rightarrow>
                    Returned (s\<lparr>events := recs,
                      error := Some (lit ''No events found in your area. Try adjusting your zip code.'')\<rparr>)
                | Inr False \<Rightarrow> Returned (s\<lparr>events := recs\<rparr>))))"

text \<open>
  \<open>err instanceof Error ? err.message : '...'\<close>. The message of a \<open>TypeError\<close> of the
  engine is the engine's own text, the parameter \<open>engine_message\<close>.
\<close>

definition error_message :: "jsstring \<Rightarrow> js_error \<Rightarrow> jsstring" where
  "error_message engine_message err =
     (case err of
        TypeError \<Rightarrow> engine_message
      | ErrorObject message \<Rightarrow> message
      | OtherValue \<Rightarrow> lit ''Failed to fetch recommendations. Please try again.'')"

definition handleSubmit_tsx ::
  "jsstring \<Rightarrow> finder_state \<Rightarrow> jsval settled \<Rightarrow> finder_state run" where
  "handleSubmit_tsx engine_message s outcome =
     (if trim (zip_code (preferences s)) = [] then
        Returned (s\<lparr>loading := True, error := None,
          error := Some (lit ''Please enter your zip code''), loading := False\<rparr>)
      else
        finally_block (\<lambda>s. s\<lparr>loading := False\<rparr>)
          (catch_block (\<lambda>err s. s\<lparr>error := Some (error_message engine_message err)\<rparr>)
             (find_try (s\<lparr>loading := True, error := None\<rparr>) outcome)))"

section \<open>Persisted preferences\<close>

subsection \<open>The JSON text of an array of strings\<close>

text \<open>
  \<open>JSON.stringify\<close> on an array of strings. The code units used below: \<open>0x22\<close> the
  double quote, \<open>0x5C\<close> the backslash, \<open>0x2F\<close> the slash, \<open>0x5B\<close> and \<open>0x5D\<close> the
  brackets, \<open>0x2C\<close> the comma, \<open>0x75\<close> the letter u, and \<open>0x62\<close>, \<open>0x66\<close>, \<open>0x6E\<close>,
  \<open>0x72\<close>, \<open>0x74\<close> the letters b, f, n, r, t.

  \<open>short_escape\<close> is the table of the two-character escapes: backspace, tab, line
  feed, form feed, carriage return, double quote and backslash.
\<close>

definition short_escape :: "code_unit \<Rightarrow> code_unit option" where
  "short_escape c =
     (if c = 0x08 then Some 0x62
      else if c = 0x09 then Some 0x74
      else if c = 0x0A then Some 0x6E
      else if c = 0x0C then Some 0x66
      else if c = 0x0D then Some 0x72
      else if c = 0x22 then Some 0x22
      else if c = 0x5C then Some 0x5C
      else None)"

definition hex_digit :: "nat \<Rightarrow> code_unit" where
  "hex_digit n = (if n < 10 then of_nat (0x30 + n) else of_nat (0x61 + (n - 10)))"

text \<open>The escape of a code unit by the letter u and four lower-case hexadecimal digits.\<close>

definition unicode_escape :: "code_unit \<Rightarrow> jsstring" where
  "unicode_escape c =
     [0x5C, 0x75, hex_digit (unat c div 4096), hex_digit (unat c div 256 mod 16),
      hex_digit (unat c div 16 mod 16), hex_digit (unat c mod 16)]"

definition is_high_surrogate :: "code_unit \<Rightarrow> bool" where
  "is_high_surrogate c \<longleftrightarrow> 0xD800 \<le> c \<and> c \<le> 0xDBFF"

definition is_low_surrogate :: "code_unit \<Rightarrow> bool" where
  "is_low_surrogate c \<longleftrightarrow> 0xDC00 \<le> c \<and> c \<le> 0xDFFF"

text \<open>
  The content of a quoted string: a code unit of the table is written as its short
  escape, any other control code unit and any surrogate that is not part of a pair as
  its escape with four hexadecimal digits, and everything else, a surrogate pair
  included, as it is.
\<close>

fun quote_units :: "jsstring \<Rightarrow> jsstring" where
  "quote_units [] = []"
| "quote_units (c # cs) =
     (case short_escape c of
        Some e \<Rightarrow> 0x5C # e # quote_units cs
      | None \<Rightarrow>
          if c < 0x20 then unicode_escape c @ quote_units cs
          else if is_high_surrogate c then
            (case cs of
               [] \<Rightarrow> unicode_escape c
             | d # ds \<Rightarrow>
                 if is_low_surrogate d then c # d # quote_units ds
                 else unicode_escape c @ quote_units cs)
          else if is_low_surrogate c then unicode_escape c @ quote_units cs
          else c # quote_units cs)"

definition QuoteJSONString :: "jsstring \<Rightarrow> jsstring" where
  "QuoteJSONString s = 0x22 # quote_units s @ [0x22]"

fun join_elements :: "jsstring list \<Rightarrow> jsstring" where
  "join_elements [] = []"
| "join_elements [x] = QuoteJSONString x"
| "join_elements (x # y # ys) = QuoteJSONString x @ 0x2C # join_elements (y # ys)"

text \<open>\<open>JSON.stringify(xs)\<close> for an array \<open>xs\<close> of strings.\<close>

definition stringify_strings :: "jsstring list \<Rightarrow> jsstring" where
  "stringify_strings xs = 0x5B # join_elements xs @ [0x5D]"

text \<open>
  \<open>JSON.parse\<close> on the texts whose value is an array of strings, as one pass over the
  code units. The grammar is that of JSON: white space (tab, line feed, carriage return,
  space) around the brackets, the strings and the commas; in a string no raw control
  code unit, and after a backslash one of the double quote, the backslash, the slash,
  the letters b, f, n, r, t, or the letter u with four hexadecimal digits of either
  case. The result \<open>None\<close> stands for every other text: one on which \<open>JSON.parse\<close>
  throws a \<open>SyntaxError\<close>, or one whose value is not an array of strings.
\<close>

definition is_json_ws :: "code_unit \<Rightarrow> bool" where
  "is_json_ws c \<longleftrightarrow> c = 0x09 \<or> c = 0x0A \<or> c = 0x0D \<or> c = 0x20"

definition unescape :: "code_unit \<Rightarrow> code_unit option" where
  "unescape e =
     (if e = 0x22 then Some 0x22
      else if e = 0x5C then Some 0x5C
      else if e = 0x2F then Some 0x2F
      else if e = 0x62 then Some 0x08
      else if e = 0x66 then Some 0x0C
      else if e = 0x6E then Some 0x0A
      else if e = 0x72 then Some 0x0D
      else if e = 0x74 then Some 0x09
      else None)"

definition hex_value :: "code_unit \<Rightarrow> nat option" where
  "hex_value c =
     (if 0x30 \<le> c \<and> c \<le> 0x39 then Some (unat c - 0x30)
      else if 0x61 \<le> c \<and> c \<le> 0x66 then Some (unat c - 0x61 + 10)
      else if 0x41 \<le> c \<and> c \<le> 0x46 then Some (unat c - 0x41 + 10)
      else None)"

text \<open>
  Where the pass stands: before the opening bracket; after it; after a comma; inside a
  string, with the code units read so far, the last one first; after a backslash; after
  a backslash and the letter u, with the number of digits still to read and the value
  of those read; after the closing quote of a string; after the closing bracket.
\<close>

datatype scan_state =
    BeforeArray
  | AfterOpen
  | AfterComma
  | InString jsstring
  | AfterBackslash jsstring
  | InUnicode jsstring nat nat
  | AfterString
  | AfterArray

text \<open>\<open>found\<close> holds the strings read so far, the last one first.\<close>

fun scan :: "scan_state \<Rightarrow> jsstring list \<Rightarrow> jsstring \<Rightarrow> jsstring list option" where
  "scan AfterArray found [] = Some (rev found)"
| "scan st found [] = None"
| "scan BeforeArray found (c # cs) =
     (if is_json_ws c then scan BeforeArray found cs
      else if c = 0x5B then scan AfterOpen found cs
      else None)"
| "scan AfterOpen found (c # cs) =
     (if is_json_ws c then scan AfterOpen found cs
      else if c = 0x22 then scan (InString []) found cs
      else if c = 0x5D then scan AfterArray found cs
      else None)"
| "scan AfterComma found (c # cs) =
     (if is_json_ws c then scan AfterComma found cs
      else if c = 0x22 then scan (InString []) found cs
      else None)"
| "scan (InString acc) found (c # cs) =
     (if c = 0x22 then scan AfterString (rev acc # found) cs
      else if c = 0x5C then scan (AfterBackslash acc) found cs
      else if c < 0x20 then None
      else scan (InString (c # acc)) found cs)"
| "scan (AfterBackslash acc) found (c # cs) =
     (if c = 0x75 then scan (InUnicode acc 4 0) found cs
      else (case unescape c of
              None \<Rightarrow> None
            | Some u \<Rightarrow> scan (InString (u # acc)) found cs))"
| "scan (InUnicode acc k v) found (c # cs) =
     (case hex_value c of
        None \<Rightarrow> None
      | Some d \<Rightarrow>
          if k \<le> 1 then scan (InString (of_nat (v * 16 + d) # acc)) found cs
          else scan (InUnicode acc (k - 1) (v * 16 + d)) found cs)"
| "scan AfterString found (c # cs) =
     (if is_json_ws c then scan AfterString found cs
      else if c = 0x2C then scan AfterComma found cs
      else if c = 0x5D then scan AfterArray found cs
      else None)"
| "scan AfterArray found (c # cs) =
     (if is_json_ws c then scan AfterArray found cs else None)"

definition parse_strings :: "jsstring \<Rightarrow> jsstring list option" where
  "parse_strings text = scan BeforeArray [] text"

subsection \<open>Browser storage and the two effects\<close>

text \<open>
  \<open>localStorage\<close> as a map from keys to values; \<open>getItem\<close> gives \<open>null\<close>, here
  \<open>None\<close>, for a key that is not there. A write is taken to succeed: the quota of the
  browser is not modelled.
\<close>

type_synonym storage = "jsstring \<Rightarrow> jsstring option"

definition setItem :: "jsstring \<Rightarrow> jsstring \<Rightarrow> storage \<Rightarrow> storage" where
  "setItem key v st = st(key \<mapsto> v)"

definition getItem :: "storage \<Rightarrow> jsstring \<Rightarrow> jsstring option" where
  "getItem st key = st key"

text \<open>The effect that saves the preferences whenever they change.\<close>

definition save_preferences :: "recommendation_request \<Rightarrow> storage \<Rightarrow> storage" where
  "save_preferences p st =
     setItem (lit ''interests'') (stringify_strings (interests p))
       (setItem (lit ''zipCode'') (zip_code p) st)"

text \<open>
  The effect that loads the saved preferences on mount. \<open>p\<close> is the value of
  \<open>preferences\<close> that the effect closes over, and the result is the state after the
  effect: each of the two calls of \<open>setPreferences\<close> spreads \<open>p\<close>, so the second one,
  when it happens, replaces what the first one has set. A saved text is used when it
  is neither \<open>null\<close> nor empty. \<open>None\<close> is the case left out by \<open>parse_strings\<close>.
\<close>

definition load_preferences ::
  "recommendation_request \<Rightarrow> storage \<Rightarrow> recommendation_request option" where
  "load_preferences p st =
     (let savedZipCode = getItem st (lit ''zipCode'');
          savedInterests = getItem st (lit ''interests'');
          p1 = (case savedZipCode of
                  None \<Rightarrow> p
                | Some z \<Rightarrow> if z = [] then p else p\<lparr>zip_code := z\<rparr>)
      in case savedInterests of
           None \<Rightarrow> Some p1
         | Some saved \<Rightarrow>
             if saved = [] then Some p1
             else map_option (\<lambda>xs. p\<lparr>interests := xs\<rparr>) (parse_strings saved))"



section \<open>Properties of the string operations\<close>

lemmas eval_defs = parseRecommendation_def nonempty_lines_def labelled_def or_else_def
  label_description_def label_location_def label_date_def label_price_def label_categories_def
  no_description_def no_location_def no_date_def lit_def LF_def comma_def dash_def trim_def
  is_ws_def after_label_def claimed_field_def claimed_categories_def

lemma split_on_not_Nil: "split_on c s \<noteq> []"
  by (induction s) (auto split: list.splits)

lemma length_split_on: "length (split_on c s) = Suc (length (filter (\<lambda>x. x = c) s))"
  by (induction s) (auto split: list.splits simp: split_on_not_Nil)

lemma rev_dropWhile_takeWhile:
  "rev (dropWhile P (rev b)) @ rev (takeWhile P (rev b)) = b"
  by (metis rev_append rev_rev_ident takeWhile_dropWhile_id)

text \<open>Trimming removes a block of white space at each end and nothing else.\<close>

lemma trim_decomp:
  "\<exists>w1 w2. s = w1 @ trim s @ w2 \<and> (\<forall>c\<in>set w1. is_ws c) \<and> (\<forall>c\<in>set w2. is_ws c)"
proof -
  define b where "b = dropWhile is_ws s"
  have s: "s = takeWhile is_ws s @ b"
    by (simp add: b_def)
  have b: "b = trim s @ rev (takeWhile is_ws (rev b))"
    by (simp add: trim_def b_def rev_dropWhile_takeWhile)
  have w1: "\<forall>c\<in>set (takeWhile is_ws s). is_ws c"
    by (auto dest: set_takeWhileD)
  have w2: "\<forall>c\<in>set (rev (takeWhile is_ws (rev b))). is_ws c"
    by (auto dest: set_takeWhileD)
  from s b have "s = takeWhile is_ws s @ trim s @ rev (takeWhile is_ws (rev b))"
    by simp
  with w1 w2 show ?thesis by blast
qed

text \<open>A trimmed string that is not empty starts and ends with a code unit that is no white space.\<close>

lemma trim_ends:
  assumes "trim s \<noteq> []"
  shows "\<not> is_ws (hd (trim s))" and "\<not> is_ws (last (trim s))"
proof -
  define b where "b = dropWhile is_ws s"
  from assms have ne: "dropWhile is_ws (rev b) \<noteq> []"
    by (simp add: trim_def b_def)
  then have "\<not> is_ws (hd (dropWhile is_ws (rev b)))"
    by (rule hd_dropWhile)
  then show "\<not> is_ws (last (trim s))"
    using ne by (simp add: trim_def b_def last_rev)
  from ne have bne: "b \<noteq> []" by auto
  then have hb: "\<not> is_ws (hd b)"
    unfolding b_def by (rule hd_dropWhile)
  have "b = trim s @ rev (takeWhile is_ws (rev b))"
    by (simp add: trim_def b_def rev_dropWhile_takeWhile)
  with assms have "hd b = hd (trim s)"
    by (metis hd_append2)
  with hb show "\<not> is_ws (hd (trim s))" by simp
qed

lemma trim_unique:
  assumes w1: "\<forall>c\<in>set w1. is_ws c" and w2: "\<forall>c\<in>set w2. is_ws c"
    and core: "core = [] \<or> (\<not> is_ws (hd core) \<and> \<not> is_ws (last core))"
  shows "trim (w1 @ core @ w2) = core"
proof (cases "core = []")
  case True
  from w1 w2 have d: "dropWhile is_ws (w1 @ w2) = []"
    by (auto simp: dropWhile_eq_Nil_conv)
  have "trim (w1 @ w2) = []"
    unfolding trim_def d by simp
  with True show ?thesis
    by simp
next
  case False
  with core have h: "\<not> is_ws (hd core)" and l: "\<not> is_ws (last core)" by auto
  from False h have d1: "dropWhile is_ws (core @ w2) = core @ w2"
    by (cases core) auto
  from w1 have "dropWhile is_ws (w1 @ core @ w2) = dropWhile is_ws (core @ w2)"
    by (simp add: dropWhile_append2)
  with d1 have d2: "dropWhile is_ws (w1 @ core @ w2) = core @ w2" by simp
  from False l have d3: "dropWhile is_ws (rev core) = rev core"
    by (cases "rev core") (auto simp: last_rev hd_rev)
  from w2 have "dropWhile is_ws (rev w2 @ rev core) = dropWhile is_ws (rev core)"
    by (intro dropWhile_append2) simp
  with d2 d3 show ?thesis
    by (simp add: trim_def)
qed

text \<open>The first occurrence of a label that follows leading white space is the one removed.\<close>

lemma replace_first_after_ws:
  assumes "label \<noteq> []" and "\<not> is_ws (hd label)" and "\<forall>c\<in>set ws. is_ws c"
  shows "replace_first label [] (ws @ label @ rest) = ws @ rest"
  using assms(3)
proof (induction ws)
  case Nil
  from assms(1) show ?case
    by (cases label) auto
next
  case (Cons w ws)
  from Cons.prems assms(1,2) have "\<not> prefix label (w # ws @ label @ rest)"
    by (cases label) auto
  with Cons show ?case by simp
qed

text \<open>
  On a line whose trimmed content starts with the label, removing the label from the
  line and trimming gives the part of the trimmed content after the label, trimmed.
\<close>

lemma labelled_value:
  assumes ne: "label \<noteq> []" and p: "prefix label (trim line)"
  shows "trim (replace_first label [] line) = trim (drop (length label) (trim line))"
proof -
  from p obtain rest where t: "trim line = label @ rest"
    by (auto simp: prefix_def)
  with ne have tne: "trim line \<noteq> []" by simp
  from trim_decomp obtain w1 w2 where
    l: "line = w1 @ trim line @ w2" and w1: "\<forall>c\<in>set w1. is_ws c" and w2: "\<forall>c\<in>set w2. is_ws c"
    by blast
  from trim_ends(1)[OF tne] t ne have hl: "\<not> is_ws (hd label)" by simp
  from l t have "line = w1 @ label @ (rest @ w2)" by simp
  then have "replace_first label [] line = w1 @ (rest @ w2)"
    using replace_first_after_ws[OF ne hl w1] by simp
  moreover
  from trim_decomp obtain v1 v2 where
    r: "rest = v1 @ trim rest @ v2" and v1: "\<forall>c\<in>set v1. is_ws c" and v2: "\<forall>c\<in>set v2. is_ws c"
    by blast
  have c: "trim rest = [] \<or> (\<not> is_ws (hd (trim rest)) \<and> \<not> is_ws (last (trim rest)))"
    using trim_ends[of rest] by blast
  have "w1 @ (rest @ w2) = (w1 @ v1) @ trim rest @ (v2 @ w2)"
    using r by (metis append.assoc)
  moreover have "trim ((w1 @ v1) @ trim rest @ (v2 @ w2)) = trim rest"
    using w1 v1 v2 w2 c by (intro trim_unique) auto
  ultimately have "trim (replace_first label [] line) = trim rest" by simp
  with t show ?thesis by simp
qed

lemma labelled_after_label:
  assumes "label \<noteq> []"
  shows "labelled label lines = after_label label lines"
proof (cases "find (\<lambda>line. prefix label (trim line)) lines")
  case None
  then show ?thesis
    by (simp add: labelled_def after_label_def)
next
  case (Some line)
  then have "prefix label (trim line)"
    by (auto simp: find_Some_iff)
  with assms have "trim (replace_first label [] line) = trim (drop (length label) (trim line))"
    by (rule labelled_value)
  with Some show ?thesis
    by (simp add: labelled_def after_label_def)
qed

lemma labels_not_Nil:
  "label_description \<noteq> []" "label_location \<noteq> []" "label_date \<noteq> []"
  "label_price \<noteq> []" "label_categories \<noteq> []"
  by (simp_all add: label_description_def label_location_def label_date_def label_price_def
      label_categories_def lit_def)

lemma or_else_not_Nil: "fallback \<noteq> [] \<Longrightarrow> or_else v fallback \<noteq> []"
  by (simp add: or_else_def split: option.splits)

section \<open>The parser\<close>

lemma parse_accepted:
  assumes "2 \<le> length (nonempty_lines text)"
  shows "parseRecommendation text =
     Inr (Some \<lparr>
       title = trim (strip_bullet (hd (nonempty_lines text))),
       description = or_else (labelled label_description (nonempty_lines text)) no_description,
       date = or_else (labelled label_date (nonempty_lines text)) no_date,
       location = or_else (labelled label_location (nonempty_lines text)) no_location,
       price = labelled label_price (nonempty_lines text),
       categories = map_option (\<lambda>v. map trim (split_on comma v))
         (labelled label_categories (nonempty_lines text)),
       url = None, relevance_score = None, reasoning = None, personalization = None \<rparr>)"
proof (cases "nonempty_lines text")
  case Nil
  with assms show ?thesis by simp
next
  case (Cons first rest)
  with assms show ?thesis
    by (cases rest) (simp_all add: parseRecommendation_def Let_def)
qed

lemma parse_rejected:
  assumes "length (nonempty_lines text) < 2"
  shows "parseRecommendation text = Inr None"
  using assms by (simp add: parseRecommendation_def Let_def)

text \<open>
  Claim C1, as amended. For every text with at least two non-empty lines the parse
  succeeds, and each of the five labelled fields is read from the first non-empty line,
  the title line included, whose trimmed content starts with the label: the value is
  the part of the trimmed line after the label, trimmed. Description, location and date
  take their fallback when there is no such line or when the value is empty; price is
  undefined when there is no such line; categories is the value split on commas with
  each piece trimmed, or undefined when there is no such line.
\<close>

theorem parse_fields_from_first_labelled_line:
  assumes "2 \<le> length (nonempty_lines text)"
  shows "\<exists>r. parseRecommendation text = Inr (Some r) \<and>
    description r = or_else (after_label label_description (nonempty_lines text)) no_description \<and>
    location r = or_else (after_label label_location (nonempty_lines text)) no_location \<and>
    date r = or_else (after_label label_date (nonempty_lines text)) no_date \<and>
    price r = after_label label_price (nonempty_lines text) \<and>
    categories r = map_option (\<lambda>v. map trim (split_on comma v))
      (after_label label_categories (nonempty_lines text))"
  using parse_accepted[OF assms]
  by (simp add: labelled_after_label labels_not_Nil)

theorem parse_fields_from_first_labelled_line_witness:
  "2 \<le> length (nonempty_lines
      (lit ''- Jazz'' @ LF # lit '' Date: Fri '' @ LF # lit ''Description: Live''))
   \<and> (\<exists>r. parseRecommendation
        (lit ''- Jazz'' @ LF # lit '' Date: Fri '' @ LF # lit ''Description: Live'') = Inr (Some r)
      \<and> description r = lit ''Live'' \<and> location r = no_location \<and> date r = lit ''Fri''
      \<and> price r = None \<and> categories r = None)"
proof -
  have l: "nonempty_lines (lit ''- Jazz'' @ LF # lit '' Date: Fri '' @ LF # lit ''Description: Live'')
      = [lit ''- Jazz'', lit '' Date: Fri '', lit ''Description: Live'']"
    by (simp add: nonempty_lines_def lit_def LF_def trim_def is_ws_def)
  have h: "2 \<le> length (nonempty_lines
      (lit ''- Jazz'' @ LF # lit '' Date: Fri '' @ LF # lit ''Description: Live''))"
    unfolding l by simp
  have v: "or_else (after_label label_description
        [lit ''- Jazz'', lit '' Date: Fri '', lit ''Description: Live'']) no_description = lit ''Live''"
      "or_else (after_label label_location
        [lit ''- Jazz'', lit '' Date: Fri '', lit ''Description: Live'']) no_location = no_location"
      "or_else (after_label label_date
        [lit ''- Jazz'', lit '' Date: Fri '', lit ''Description: Live'']) no_date = lit ''Fri''"
      "after_label label_price
        [lit ''- Jazz'', lit '' Date: Fri '', lit ''Description: Live''] = None"
      "after_label label_categories
        [lit ''- Jazz'', lit '' Date: Fri '', lit ''Description: Live''] = None"
    by (simp_all add: eval_defs)
  from parse_fields_from_first_labelled_line[OF h] h show ?thesis
    unfolding l v by simp
qed

text \<open>
  Claim C1 as written fails on the code. In the text of the two lines
  \<open>Description: A\<close> and \<open>Description: B\<close> the parsed description is \<open>A\<close>, read from the
  title line, where the first labelled line strictly after the title line gives \<open>B\<close>.
  In the text of the two lines \<open>T\<close> and \<open>Description:\<close> a labelled line is there, with
  the empty value, and the parsed description is the fallback.
\<close>

theorem parse_fields_counterexample:
  "map_sum id (map_option description)
     (parseRecommendation (lit ''Description: A'' @ LF # lit ''Description: B'')) =
       Inr (Some (lit ''A'')) \<and>
   claimed_field label_description no_description
     (nonempty_lines (lit ''Description: A'' @ LF # lit ''Description: B'')) = lit ''B'' \<and>
   lit ''A'' \<noteq> lit ''B'' \<and>
   map_sum id (map_option description)
     (parseRecommendation (lit ''T'' @ LF # lit ''Description:'')) =
       Inr (Some (lit ''No description available'')) \<and>
   claimed_field label_description no_description
     (nonempty_lines (lit ''T'' @ LF # lit ''Description:'')) = [] \<and>
   lit ''No description available'' \<noteq> []"
  by (simp add: eval_defs)

text \<open>
  Claim C2. For every input string the parser returns \<open>null\<close> if and only if fewer
  than two lines remain after the lines that are empty after trimming are dropped;
  with two such lines or more it returns a record, whatever else the text holds.
\<close>

theorem parse_null_iff_fewer_than_two_lines:
  "(parseRecommendation text = Inr None \<longleftrightarrow>
      length (filter (\<lambda>line. trim line \<noteq> []) (split_on LF text)) < 2) \<and>
   (2 \<le> length (filter (\<lambda>line. trim line \<noteq> []) (split_on LF text)) \<longrightarrow>
      (\<exists>r. parseRecommendation text = Inr (Some r)))"
proof (cases "length (nonempty_lines text) < 2")
  case True
  then show ?thesis
    using parse_rejected[of "text"] by (simp add: nonempty_lines_def)
next
  case False
  then have "2 \<le> length (nonempty_lines text)" by simp
  from parse_accepted[OF this] False show ?thesis
    by (simp add: nonempty_lines_def)
qed

theorem parse_null_iff_fewer_than_two_lines_witness:
  "2 \<le> length (filter (\<lambda>line. trim line \<noteq> [])
      (split_on LF (lit ''Price: 5'' @ LF # lit ''  '' @ LF # lit ''what'' @ LF # lit ''- T'')))
   \<and> (\<exists>r. parseRecommendation
        (lit ''Price: 5'' @ LF # lit ''  '' @ LF # lit ''what'' @ LF # lit ''- T'') = Inr (Some r))
   \<and> \<not> 2 \<le> length (filter (\<lambda>line. trim line \<noteq> [])
      (split_on LF (lit ''- T'' @ LF # lit ''  '' @ [LF])))
   \<and> parseRecommendation (lit ''- T'' @ LF # lit ''  '' @ [LF]) = Inr None"
proof -
  have a: "filter (\<lambda>line. trim line \<noteq> [])
      (split_on LF (lit ''Price: 5'' @ LF # lit ''  '' @ LF # lit ''what'' @ LF # lit ''- T''))
      = [lit ''Price: 5'', lit ''what'', lit ''- T'']"
    by (simp add: lit_def LF_def trim_def is_ws_def)
  have b: "filter (\<lambda>line. trim line \<noteq> [])
      (split_on LF (lit ''- T'' @ LF # lit ''  '' @ [LF])) = [lit ''- T'']"
    by (simp add: lit_def LF_def trim_def is_ws_def)
  from parse_null_iff_fewer_than_two_lines
        [of "lit ''Price: 5'' @ LF # lit ''  '' @ LF # lit ''what'' @ LF # lit ''- T''"]
      parse_null_iff_fewer_than_two_lines [of "lit ''- T'' @ LF # lit ''  '' @ [LF]"]
  show ?thesis
    unfolding a b by simp
qed

text \<open>
  Claim C3, as amended. For every accepted text with a Categories line, the parsed
  categories are the value of the first such line split on commas, each piece trimmed;
  every piece is kept, the empty ones too, so there is one piece more than the value
  has commas.
\<close>

theorem parse_categories_keeps_every_piece:
  assumes "2 \<le> length (nonempty_lines text)"
    and "find (\<lambda>line. prefix label_categories (trim line)) (nonempty_lines text) = Some line"
  shows "\<exists>r. parseRecommendation text = Inr (Some r) \<and>
    categories r =
      Some (map trim (split_on comma (trim (drop (length label_categories) (trim line))))) \<and>
    map_option length (categories r) =
      Some (Suc (length (filter (\<lambda>c. c = comma)
        (trim (drop (length label_categories) (trim line))))))"
  using parse_accepted[OF assms(1)] assms(2)
  by (simp add: labelled_after_label labels_not_Nil after_label_def length_split_on)

theorem parse_categories_keeps_every_piece_witness:
  "2 \<le> length (nonempty_lines (lit ''T'' @ LF # lit ''Categories: Music, ,Art ''))
   \<and> find (\<lambda>line. prefix label_categories (trim line))
       (nonempty_lines (lit ''T'' @ LF # lit ''Categories: Music, ,Art '')) =
       Some (lit ''Categories: Music, ,Art '')
   \<and> (\<exists>r. parseRecommendation (lit ''T'' @ LF # lit ''Categories: Music, ,Art '') = Inr (Some r)
      \<and> categories r = Some [lit ''Music'', [], lit ''Art''])"
proof -
  have l: "nonempty_lines (lit ''T'' @ LF # lit ''Categories: Music, ,Art '') =
      [lit ''T'', lit ''Categories: Music, ,Art '']"
    by (simp add: nonempty_lines_def lit_def LF_def trim_def is_ws_def)
  have h: "2 \<le> length (nonempty_lines (lit ''T'' @ LF # lit ''Categories: Music, ,Art ''))"
    unfolding l by simp
  have f: "find (\<lambda>line. prefix label_categories (trim line))
       (nonempty_lines (lit ''T'' @ LF # lit ''Categories: Music, ,Art '')) =
       Some (lit ''Categories: Music, ,Art '')"
    unfolding l by (simp add: label_categories_def lit_def trim_def is_ws_def)
  have v: "map trim (split_on comma (trim (drop (length label_categories)
       (trim (lit ''Categories: Music, ,Art ''))))) = [lit ''Music'', [], lit ''Art'']"
    by (simp add: label_categories_def lit_def trim_def is_ws_def comma_def)
  from parse_categories_keeps_every_piece[OF h f] h f show ?thesis
    unfolding v by auto
qed

text \<open>
  Claim C3 as written fails on the code: for the text of the two lines \<open>T\<close> and
  \<open>Categories: Music,,Art\<close> the parsed categories are \<open>Music\<close>, the empty string and
  \<open>Art\<close>, where dropping the empty pieces gives \<open>Music\<close> and \<open>Art\<close>.
\<close>

theorem parse_categories_counterexample:
  "map_sum id (map_option categories)
     (parseRecommendation (lit ''T'' @ LF # lit ''Categories: Music,,Art'')) =
       Inr (Some (Some [lit ''Music'', [], lit ''Art''])) \<and>
   claimed_categories (lit ''Music,,Art'') = [lit ''Music'', lit ''Art''] \<and>
   [lit ''Music'', [], lit ''Art''] \<noteq> [lit ''Music'', lit ''Art'']"
  by (simp add: eval_defs)

text \<open>
  Claim C9. The parser is total and never throws: for every input string it returns
  \<open>null\<close> or a record. In the record the four required fields are strings, and
  description, date and location are not empty; price and categories are undefined
  when their line is missing. The read of the first line happens only after the test
  on the number of lines has passed, and then the list of lines is not empty.
\<close>

theorem parse_total_never_throws:
  "(\<forall>e. parseRecommendation text \<noteq> Inl e) \<and>
   (parseRecommendation text = Inr None \<or>
    (\<exists>r. parseRecommendation text = Inr (Some r) \<and>
       description r \<noteq> [] \<and> date r \<noteq> [] \<and> location r \<noteq> [])) \<and>
   (\<not> length (nonempty_lines text) < 2 \<longrightarrow> nonempty_lines text \<noteq> [])"
proof (cases "length (nonempty_lines text) < 2")
  case True
  then show ?thesis
    using parse_rejected[of "text"] by simp
next
  case False
  then have "2 \<le> length (nonempty_lines text)" by simp
  from parse_accepted[OF this] False show ?thesis
    by (auto simp: or_else_not_Nil no_description_def no_date_def no_location_def lit_def)
qed

theorem parse_total_never_throws_witness:
  "\<not> length (nonempty_lines (lit ''a'' @ LF # lit ''b'')) < 2
   \<and> nonempty_lines (lit ''a'' @ LF # lit ''b'') \<noteq> []
   \<and> parseRecommendation (lit ''a'' @ LF # lit ''b'') \<noteq> Inl TypeError
   \<and> parseRecommendation [] \<noteq> Inl TypeError"
proof -
  have l: "nonempty_lines (lit ''a'' @ LF # lit ''b'') = [lit ''a'', lit ''b'']"
    by (simp add: nonempty_lines_def lit_def LF_def trim_def is_ws_def)
  from parse_total_never_throws[of "lit ''a'' @ LF # lit ''b''"] parse_total_never_throws[of "[]"]
  show ?thesis
    unfolding l by simp
qed

text \<open>
  Claim C10. There is a text with at least two non-empty lines whose first line is the
  bullet marker alone, and for it the parser returns a record whose title is the empty
  string: the text of the two lines \<open>-\<close> and \<open>Description: x\<close>.
\<close>

theorem parse_bullet_only_gives_empty_title:
  "\<exists>text r. 2 \<le> length (nonempty_lines text) \<and> hd (nonempty_lines text) = [dash] \<and>
     parseRecommendation text = Inr (Some r) \<and> title r = []"
proof -
  let ?text = "lit ''-'' @ LF # lit ''Description: x''"
  have l: "nonempty_lines ?text = [[dash], lit ''Description: x'']"
    by (simp add: nonempty_lines_def lit_def LF_def dash_def trim_def is_ws_def)
  have "2 \<le> length (nonempty_lines ?text)"
    by (simp add: l)
  from parse_accepted[OF this] have
    "\<exists>r. parseRecommendation ?text = Inr (Some r) \<and> title r = []"
    by (simp add: l trim_def)
  with l show ?thesis
    by (metis list.sel(1) length_Cons list.size(3) numeral_2_eq_2 order_refl)
qed

section \<open>The category tags\<close>

lemma set_add_all_first_occurrences:
  "set_add_all seen xs = seen @ filter (\<lambda>y. y \<notin> set seen) (first_occurrences xs)"
proof (induction xs arbitrary: seen)
  case Nil
  show ?case by simp
next
  case (Cons x xs)
  show ?case
  proof (cases "x \<in> set seen")
    case True
    then have "filter (\<lambda>y. y \<notin> set seen) (filter (\<lambda>y. y \<noteq> x) (first_occurrences xs)) =
        filter (\<lambda>y. y \<notin> set seen) (first_occurrences xs)"
      by (auto intro: filter_cong)
    with True Cons.IH[of seen] show ?thesis by simp
  next
    case False
    have "filter (\<lambda>y. y \<notin> set (seen @ [x])) (first_occurrences xs) =
        filter (\<lambda>y. y \<notin> set seen) (filter (\<lambda>y. y \<noteq> x) (first_occurrences xs))"
      by (auto intro: filter_cong)
    with False Cons.IH[of "seen @ [x]"] show ?thesis by simp
  qed
qed

lemma set_first_occurrences: "set (first_occurrences xs) = set xs"
  by (induction xs) auto

lemma distinct_first_occurrences: "distinct (first_occurrences xs)"
  by (induction xs) auto

lemma first_index_Cons:
  "first_index (x # xs) y = (if y = x then 0 else Suc (first_index xs y))"
  by (simp add: first_index_def)

lemma sorted_first_occurrences:
  "sorted_wrt (\<lambda>a b. first_index xs a < first_index xs b) (first_occurrences xs)"
proof (induction xs)
  case Nil
  show ?case by simp
next
  case (Cons x xs)
  have "sorted_wrt (\<lambda>a b. first_index xs a < first_index xs b)
      (filter (\<lambda>y. y \<noteq> x) (first_occurrences xs))"
    using Cons.IH by (rule sorted_wrt_filter)
  then have "sorted_wrt (\<lambda>a b. first_index (x # xs) a < first_index (x # xs) b)
      (filter (\<lambda>y. y \<noteq> x) (first_occurrences xs))"
    by (rule sorted_wrt_mono_rel[rotated]) (auto simp: first_index_Cons)
  then show ?case
    by (auto simp: first_index_Cons)
qed

text \<open>
  Claim C4. For every record with a categories list, the rendered tags are that list
  without its duplicates, in the order of first appearance: no tag is rendered twice,
  the tags are the categories, and a tag stands before another one exactly as their
  first appearances in the list do. For the text of the two lines \<open>T\<close> and
  \<open>Categories: Music, Music, Art\<close> the rendered tags are \<open>Music\<close> and \<open>Art\<close>.
\<close>

theorem category_tags_first_appearance:
  "(categories r = Some cs \<longrightarrow>
      (\<exists>tags. category_tags r = Some tags \<and> distinct tags \<and> set tags = set cs \<and>
         sorted_wrt (\<lambda>a b. first_index cs a < first_index cs b) tags)) \<and>
   map_sum id (map_option category_tags)
     (parseRecommendation (lit ''T'' @ LF # lit ''Categories: Music, Music, Art'')) =
        Inr (Some (Some [lit ''Music'', lit ''Art'']))"
proof -
  have "set_add_all [] cs = first_occurrences cs"
    using set_add_all_first_occurrences[of "[]" cs] by simp
  then have g: "categories r = Some cs \<longrightarrow>
      (\<exists>tags. category_tags r = Some tags \<and> distinct tags \<and> set tags = set cs \<and>
         sorted_wrt (\<lambda>a b. first_index cs a < first_index cs b) tags)"
    by (simp add: category_tags_def set_first_occurrences distinct_first_occurrences
        sorted_first_occurrences)
  have "map_sum id (map_option category_tags)
     (parseRecommendation (lit ''T'' @ LF # lit ''Categories: Music, Music, Art'')) =
        Inr (Some (Some [lit ''Music'', lit ''Art'']))"
    by (simp add: eval_defs category_tags_def)
  with g show ?thesis by blast
qed

theorem category_tags_first_appearance_witness:
  "categories \<lparr>title = lit ''T'', description = no_description, date = no_date,
       location = no_location, price = None,
       categories = Some [lit ''Art'', lit ''Music'', lit ''Art''], url = None,
       relevance_score = None, reasoning = None, personalization = None\<rparr>
     = Some [lit ''Art'', lit ''Music'', lit ''Art''] \<and>
   category_tags \<lparr>title = lit ''T'', description = no_description, date = no_date,
       location = no_location, price = None,
       categories = Some [lit ''Art'', lit ''Music'', lit ''Art''], url = None,
       relevance_score = None, reasoning = None, personalization = None\<rparr>
     = Some [lit ''Art'', lit ''Music'']"
proof -
  have "category_tags \<lparr>title = lit ''T'', description = no_description, date = no_date,
       location = no_location, price = None,
       categories = Some [lit ''Art'', lit ''Music'', lit ''Art''], url = None,
       relevance_score = None, reasoning = None, personalization = None\<rparr>
     = Some [lit ''Art'', lit ''Music'']"
    by (simp add: category_tags_def lit_def)
  with category_tags_first_appearance
    [of "\<lparr>title = lit ''T'', description = no_description, date = no_date,
       location = no_location, price = None,
       categories = Some [lit ''Art'', lit ''Music'', lit ''Art''], url = None,
       relevance_score = None, reasoning = None, personalization = None\<rparr>"
      "[lit ''Art'', lit ''Music'', lit ''Art'']"]
  show ?thesis by simp
qed

section \<open>The relevance line\<close>

lemma bitlen_le_mono: "x \<le> y \<Longrightarrow> bitlen x \<le> bitlen y"
  by (simp add: bitlen_def floorlog_mono)

lemma round_ties_even_le:
  assumes "t \<le> of_int N"
  shows "round_ties_even t \<le> N"
proof -
  have f: "\<lfloor>t\<rfloor> \<le> N"
    using assms by (simp add: floor_le_iff)
  show ?thesis
  proof (cases "t - of_int \<lfloor>t\<rfloor> < 1 / 2")
    case True
    with f show ?thesis by (simp add: round_ties_even_def)
  next
    case False
    then have "of_int \<lfloor>t\<rfloor> < t" by simp
    with assms have "of_int \<lfloor>t\<rfloor> < (of_int N :: rat)" by simp
    then have "\<lfloor>t\<rfloor> < N" by simp
    then show ?thesis
      by (simp add: round_ties_even_def)
  qed
qed

lemma round_ties_even_nonneg: "0 \<le> t \<Longrightarrow> 0 \<le> round_ties_even t"
  by (simp add: round_ties_even_def)

lemma ilog2_le:
  assumes "0 < q" and "q \<le> 100"
  shows "ilog2 q \<le> 7"
proof -
  obtain a b where ab: "quotient_of q = (a, b)"
    by (cases "quotient_of q")
  then have b: "0 < b" and q: "q = of_int a / of_int b"
    by (auto dest: quotient_of_denom_pos quotient_of_div)
  from q assms b have "of_int a \<le> (100 :: rat) * of_int b"
    by (simp add: pos_divide_le_eq)
  then have "a \<le> 100 * b"
    by (metis of_int_le_iff of_int_mult of_int_numeral)
  also have "\<dots> \<le> b * 2 ^ 7"
    using b by simp
  finally have "bitlen a \<le> bitlen (b * 2 ^ 7)"
    by (rule bitlen_le_mono)
  also have "\<dots> = bitlen b + int 7"
    using b by (rule bitlen_pow2)
  finally have "bitlen a - bitlen b \<le> 7" by simp
  with ab show ?thesis
    by (simp add: ilog2_def Let_def)
qed

text \<open>The product of a score in the unit interval with 100 rounds to a value from 0 to 100.\<close>

lemma to_double_percent_range:
  assumes "0 < q" and "q \<le> 100"
  shows "\<exists>y. to_double q = Some y \<and> 0 \<le> y \<and> y \<le> 100"
proof -
  define e where "e = max (ilog2 \<bar>q\<bar> - 52) (- 1074)"
  define P :: int where "P = 2 ^ nat (- e)"
  define m where "m = round_ties_even (\<bar>q\<bar> / pow2 e)"
  from assms have aq: "\<bar>q\<bar> = q" by simp
  from ilog2_le[OF assms] have e: "e < 0"
    by (simp add: e_def aq)
  then have p: "pow2 e = 1 / of_int P"
    by (simp add: pow2_def P_def)
  have Ppos: "0 < P" by (simp add: P_def)
  have "\<bar>q\<bar> / pow2 e = q * of_int P"
    by (simp add: p aq)
  also have "\<dots> \<le> of_int (100 * P)"
    using assms Ppos by simp
  finally have mle: "m \<le> 100 * P"
    unfolding m_def by (rule round_ties_even_le)
  have "0 \<le> \<bar>q\<bar> / pow2 e"
    using Ppos by (simp add: p)
  then have mge: "0 \<le> m"
    unfolding m_def by (rule round_ties_even_nonneg)
  define y :: rat where "y = of_int m * pow2 e"
  have y: "y = of_int m / of_int P"
    by (simp add: y_def p)
  have "of_int m \<le> (100 :: rat) * of_int P"
    using mle by (metis of_int_le_iff of_int_mult of_int_numeral)
  then have yle: "y \<le> 100"
    using Ppos by (simp add: y pos_divide_le_eq)
  have yge: "0 \<le> y"
    using mge Ppos by (simp add: y)
  have "(100 :: rat) < 2 ^ 1024" by simp
  with yle have "\<not> 2 ^ 1024 \<le> y" by simp
  moreover have "sgn q = 1" using assms by simp
  moreover have "q \<noteq> 0" using assms by simp
  ultimately have "to_double q = Some y"
    by (simp add: to_double_def Let_def e_def[symmetric] m_def[symmetric] y_def[symmetric])
  with yle yge show ?thesis by blast
qed

lemma percent_text_range:
  assumes "0 < score" and "score \<le> 1"
  shows "\<exists>n. percent_text score = Some (decimal n) \<and> n \<le> 100"
proof -
  from assms have "0 < score * 100" and "score * 100 \<le> 100" by simp_all
  from to_double_percent_range[OF this] obtain y where
    d: "to_double (score * 100) = Some y" and y: "0 \<le> y" "y \<le> 100"
    by blast
  from y have "\<lfloor>\<bar>y\<bar> + 1 / 2\<rfloor> \<le> 100"
    by (simp add: floor_le_iff)
  then have n: "nat \<lfloor>\<bar>y\<bar> + 1 / 2\<rfloor> \<le> 100" by linarith
  from y have "\<not> 10 ^ 21 \<le> \<bar>y\<bar>" by simp
  with y have "toFixed0 y = Some (decimal (nat \<lfloor>\<bar>y\<bar> + 1 / 2\<rfloor>))"
    by (simp add: toFixed0_def)
  with d n show ?thesis
    by (auto simp: percent_text_def)
qed

text \<open>
  A score above 0 and up to 1 is rendered as a relevance line with a whole percentage
  from 0 to 100.
\<close>

lemma relevance_line_in_range:
  assumes "relevance_score r = Some score" and "0 < score" and "score \<le> 1"
  shows "\<exists>n. render_relevance r = RelevanceLine (lit ''Relevance: '' @ decimal n @ lit ''%'') \<and>
    n \<le> 100"
proof -
  from percent_text_range[OF assms(2,3)] obtain n where
    "percent_text score = Some (decimal n)" and "n \<le> 100"
    by blast
  with assms show ?thesis
    by (auto simp: render_relevance_def)
qed

text \<open>
  The number written \<open>0.876\<close> is the binary64 value \<open>7890306547153109 / 2 ^ 53\<close>, and a
  record with that score is rendered with the line \<open>Relevance: 88%\<close>.
\<close>

lemma double_of_0_876: "to_double (876 / 1000) = Some (7890306547153109 / 9007199254740992)"
  by code_simp

lemma percent_text_of_0_876:
  "percent_text (7890306547153109 / 9007199254740992) = Some (lit ''88'')"
  by code_simp

lemma relevance_line_of_0_876:
  assumes "relevance_score r = Some (7890306547153109 / 9007199254740992)"
  shows "render_relevance r = RelevanceLine (lit ''Relevance: 88%'')"
  using assms by (simp add: render_relevance_def percent_text_of_0_876 lit_def)

text \<open>
  Claim C6, at the input where the code departs from it. A record whose relevance
  score is present and equal to 0 is not rendered with a percentage: the guard
  \<open>rec.relevance_score &&\<close> gives the number 0 itself, and the page shows the bare text
  \<open>0\<close> where the claim has the line with \<open>0%\<close>.
\<close>

theorem zero_score_renders_bare_zero:
  "render_relevance \<lparr>title = lit ''T'', description = lit ''D'', date = lit ''Fri'',
      location = lit ''L'', price = None, categories = None, url = None,
      relevance_score = Some 0, reasoning = None, personalization = None\<rparr> =
     BareText (lit ''0'')"
  by (simp add: render_relevance_def)

section \<open>The submit handlers\<close>

lemma finally_returned:
  "finally_block cleanup r = Returned s' \<Longrightarrow> \<exists>s. s' = cleanup s"
  by (cases r) auto

lemma catch_never_uncaught: "catch_block handler r \<noteq> Uncaught e s'"
  by (cases r) auto

lemma finally_uncaught:
  "finally_block cleanup r = Uncaught e s' \<Longrightarrow> \<exists>s. r = Uncaught e s"
  by (cases r) auto

lemma finally_suspended:
  "finally_block cleanup r = Suspended s' \<Longrightarrow> r = Suspended s'"
  by (cases r) auto

lemma catch_suspended:
  "catch_block handler r = Suspended s' \<Longrightarrow> r = Suspended s'"
  by (cases r) auto

lemma submit_try_suspended: "submit_try s post = Suspended s' \<Longrightarrow> post = Pending"
  by (auto simp: submit_try_def split: settled.splits sum.splits jsval.splits)

lemma find_try_suspended: "find_try s outcome = Suspended s' \<Longrightarrow> outcome = Pending"
  by (auto simp: find_try_def split: settled.splits sum.splits bool.splits)

lemma handleSubmit_completes:
  assumes "post \<noteq> Pending"
  shows "\<exists>s'. handleSubmit s post = Returned s' \<and> \<not> app_state.loading s'"
proof (cases "handleSubmit s post")
  case (Returned s')
  then obtain s0 where "s' = s0\<lparr>app_state.loading := False\<rparr>"
    unfolding handleSubmit_def by (blast dest: finally_returned)
  with Returned show ?thesis by simp
next
  case (Uncaught e s')
  then show ?thesis
    unfolding handleSubmit_def
    by (blast dest: finally_uncaught intro: catch_never_uncaught[THEN notE])
next
  case (Suspended s')
  then have "post = Pending"
    unfolding handleSubmit_def
    by (blast dest: finally_suspended catch_suspended submit_try_suspended)
  with assms show ?thesis by simp
qed

lemma handleSubmit_tsx_completes:
  assumes "outcome \<noteq> Pending"
  shows "\<exists>s'. handleSubmit_tsx m s outcome = Returned s' \<and> \<not> finder_state.loading s'"
proof (cases "trim (zip_code (preferences s)) = []")
  case True
  then show ?thesis
    by (simp add: handleSubmit_tsx_def)
next
  case False
  show ?thesis
  proof (cases "handleSubmit_tsx m s outcome")
    case (Returned s')
    with False obtain s0 where "s' = s0\<lparr>finder_state.loading := False\<rparr>"
      unfolding handleSubmit_tsx_def by (auto dest: finally_returned)
    with Returned show ?thesis by simp
  next
    case (Uncaught e s')
    with False show ?thesis
      unfolding handleSubmit_tsx_def
      by (auto dest!: finally_uncaught simp: catch_never_uncaught)
  next
    case (Suspended s')
    with False have "outcome = Pending"
      unfolding handleSubmit_tsx_def
      by (auto dest!: finally_suspended catch_suspended find_try_suspended)
    with assms show ?thesis by simp
  qed
qed

text \<open>
  Claim C5. When the response body has a \<open>recommendations\<close> field that is not an array,
  the handler of the card view completes without throwing, and the state it leaves has
  the format-error message, an empty list of results and the loading flag cleared.
\<close>

theorem invalid_format_shows_error_and_no_results:
  assumes "get_property data (lit ''recommendations'') = Inr v" and "\<forall>items. v \<noteq> JArr items"
  shows "handleSubmit s (Fulfilled data) =
     Returned (s\<lparr>app_state.loading := False,
       app_state.error := lit ''Invalid response format from server'',
       recommendations := []\<rparr>)"
  using assms by (cases v) (simp_all add: handleSubmit_def submit_try_def)

theorem invalid_format_shows_error_and_no_results_witness:
  "get_property (JObj [(lit ''recommendations'', JStr (lit ''not an array''))])
      (lit ''recommendations'') = Inr (JStr (lit ''not an array'')) \<and>
   (\<forall>items. JStr (lit ''not an array'') \<noteq> JArr items) \<and>
   handleSubmit \<lparr>recommendations = [JNull], loading = False, error = lit ''old''\<rparr>
     (Fulfilled (JObj [(lit ''recommendations'', JStr (lit ''not an array''))])) =
     Returned \<lparr>recommendations = [], loading = False,
       error = lit ''Invalid response format from server''\<rparr>"
proof -
  have a: "get_property (JObj [(lit ''recommendations'', JStr (lit ''not an array''))])
      (lit ''recommendations'') = Inr (JStr (lit ''not an array''))"
    by simp
  have b: "\<forall>items. JStr (lit ''not an array'') \<noteq> JArr items"
    by simp
  from invalid_format_shows_error_and_no_results[OF a b,
      of "\<lparr>recommendations = [JNull], loading = False, error = lit ''old''\<rparr>"] a b
  show ?thesis by simp
qed

lemma handleSubmit_pending:
  "handleSubmit s Pending =
     Suspended (s\<lparr>app_state.loading := True, app_state.error := [], recommendations := []\<rparr>)"
  by (simp add: handleSubmit_def submit_try_def)

lemma handleSubmit_tsx_pending:
  "handleSubmit_tsx m s Pending =
     (if trim (zip_code (preferences s)) = [] then
        Returned (s\<lparr>finder_state.error := Some (lit ''Please enter your zip code''),
          finder_state.loading := False\<rparr>)
      else Suspended (s\<lparr>finder_state.loading := True, finder_state.error := None\<rparr>))"
  by (simp add: handleSubmit_tsx_def find_try_def)

lemma handleSubmit_exits:
  "(\<forall>s'. handleSubmit s post = Returned s' \<longrightarrow> \<not> app_state.loading s') \<and>
   (\<forall>e s'. handleSubmit s post \<noteq> Uncaught e s')"
proof (cases "post = Pending")
  case True
  then show ?thesis
    by (simp add: handleSubmit_pending)
next
  case False
  from handleSubmit_completes[OF this, of s] show ?thesis
    by auto
qed

lemma handleSubmit_tsx_exits:
  "(\<forall>s'. handleSubmit_tsx m s outcome = Returned s' \<longrightarrow> \<not> finder_state.loading s') \<and>
   (\<forall>e s'. handleSubmit_tsx m s outcome \<noteq> Uncaught e s')"
proof (cases "outcome = Pending")
  case True
  then show ?thesis
    by (auto simp: handleSubmit_tsx_pending split: if_splits)
next
  case False
  from handleSubmit_tsx_completes[OF this, of m s] show ?thesis
    by auto
qed

text \<open>
  Claim C7. On every exit of each of the two submit handlers the loading flag is
  cleared: a handler that completes leaves a state with the flag false, no exception
  leaves a handler, and a handler completes whenever its awaited call settles, with a
  value or with a rejection, whatever they are. The run that does not complete is the
  one whose awaited call never settles.
\<close>

theorem submit_always_clears_loading:
  "(\<forall>s'. handleSubmit s post = Returned s' \<longrightarrow> \<not> app_state.loading s') \<and>
   (\<forall>e s'. handleSubmit s post \<noteq> Uncaught e s') \<and>
   (post \<noteq> Pending \<longrightarrow> (\<exists>s'. handleSubmit s post = Returned s')) \<and>
   (\<forall>t'. handleSubmit_tsx m t outcome = Returned t' \<longrightarrow> \<not> finder_state.loading t') \<and>
   (\<forall>e t'. handleSubmit_tsx m t outcome \<noteq> Uncaught e t') \<and>
   (outcome \<noteq> Pending \<longrightarrow> (\<exists>t'. handleSubmit_tsx m t outcome = Returned t'))"
  using handleSubmit_exits[of s post] handleSubmit_tsx_exits[of m t outcome]
    handleSubmit_completes[of post s] handleSubmit_tsx_completes[of outcome m t]
  by blast

theorem submit_always_clears_loading_witness:
  "handleSubmit \<lparr>recommendations = [JNull], loading = False, error = lit ''old''\<rparr>
      (Rejected OtherValue) =
     Returned \<lparr>recommendations = [], loading = False,
       error = lit ''Failed to fetch recommendations. Please try again.''\<rparr> \<and>
   \<not> app_state.loading \<lparr>recommendations = [], loading = False,
       error = lit ''Failed to fetch recommendations. Please try again.''\<rparr> \<and>
   Rejected OtherValue \<noteq> (Pending :: jsval settled) \<and>
   handleSubmit_tsx []
      \<lparr>preferences = \<lparr>zip_code = lit ''94110'', interests = []\<rparr>, events = JArr [],
        loading = False, error = None, interestsInput = []\<rparr>
      (Fulfilled JNull) =
     Returned \<lparr>preferences = \<lparr>zip_code = lit ''94110'', interests = []\<rparr>, events = JArr [],
        loading = False, error = Some [], interestsInput = []\<rparr> \<and>
   \<not> finder_state.loading
     \<lparr>preferences = \<lparr>zip_code = lit ''94110'', interests = []\<rparr>, events = JArr [],
        loading = False, error = Some [], interestsInput = []\<rparr> \<and>
   Fulfilled JNull \<noteq> Pending"
proof -
  have a: "handleSubmit \<lparr>recommendations = [JNull], loading = False, error = lit ''old''\<rparr>
      (Rejected OtherValue) =
     Returned \<lparr>recommendations = [], loading = False,
       error = lit ''Failed to fetch recommendations. Please try again.''\<rparr>"
    by (simp add: handleSubmit_def submit_try_def)
  have b: "handleSubmit_tsx []
      \<lparr>preferences = \<lparr>zip_code = lit ''94110'', interests = []\<rparr>, events = JArr [],
        loading = False, error = None, interestsInput = []\<rparr>
      (Fulfilled JNull) =
     Returned \<lparr>preferences = \<lparr>zip_code = lit ''94110'', interests = []\<rparr>, events = JArr [],
        loading = False, error = Some [], interestsInput = []\<rparr>"
    by (simp add: handleSubmit_tsx_def find_try_def error_message_def lit_def trim_def is_ws_def)
  from submit_always_clears_loading
    [of "\<lparr>recommendations = [JNull], loading = False, error = lit ''old''\<rparr>"
      "Rejected OtherValue" "[]"
      "\<lparr>preferences = \<lparr>zip_code = lit ''94110'', interests = []\<rparr>, events = JArr [],
        loading = False, error = None, interestsInput = []\<rparr>"
      "Fulfilled JNull"] a b
  show ?thesis by simp
qed

section \<open>The round trip through browser storage\<close>

lemma hex_digit_table: "\<forall>n\<in>set [0..<16]. hex_value (hex_digit n) = Some n"
  by code_simp

lemma hex_value_hex_digit:
  assumes "n < 16"
  shows "hex_value (hex_digit n) = Some n"
  using assms hex_digit_table by simp

lemma hex_digits_value:
  "((n div 4096 * 16 + n div 256 mod 16) * 16 + n div 16 mod 16) * 16 + n mod 16 = (n::nat)"
proof -
  have a: "n div 256 div 16 = n div 4096" and b: "n div 16 div 16 = n div 256"
    by (simp_all add: div_mult2_eq[symmetric])
  have "n div 4096 * 16 + n div 256 mod 16 = n div 256"
    using div_mult_mod_eq[of "n div 256" 16] by (simp only: a)
  moreover have "n div 256 * 16 + n div 16 mod 16 = n div 16"
    using div_mult_mod_eq[of "n div 16" 16] by (simp only: b)
  moreover have "n div 16 * 16 + n mod 16 = n"
    by (rule div_mult_mod_eq)
  ultimately show ?thesis by simp
qed

lemma scan_unicode_escape:
  "scan (InString acc) found (unicode_escape c @ tail) = scan (InString (c # acc)) found tail"
proof -
  have n: "unat c < 65536"
    using unsigned_less[of c] by simp
  have d: "unat c div 4096 < 16" "unat c div 256 mod 16 < 16" "unat c div 16 mod 16 < 16"
      "unat c mod 16 < 16"
    using n by simp_all
  have v: "of_nat (((unat c div 4096 * 16 + unat c div 256 mod 16) * 16 + unat c div 16 mod 16) * 16
      + unat c mod 16) = c"
    by (simp only: hex_digits_value) simp
  have "scan (InString acc) found (unicode_escape c @ tail) =
      scan (InUnicode acc 4 0) found (hex_digit (unat c div 4096) #
        hex_digit (unat c div 256 mod 16) # hex_digit (unat c div 16 mod 16) #
        hex_digit (unat c mod 16) # tail)"
    by (simp add: unicode_escape_def)
  also have "\<dots> = scan (InString (of_nat (((unat c div 4096 * 16 + unat c div 256 mod 16) * 16
      + unat c div 16 mod 16) * 16 + unat c mod 16) # acc)) found tail"
    by (simp add: hex_value_hex_digit[OF d(1)] hex_value_hex_digit[OF d(2)]
        hex_value_hex_digit[OF d(3)] hex_value_hex_digit[OF d(4)])
  finally show ?thesis
    by (simp only: v)
qed

lemma short_escape_Some:
  assumes "short_escape c = Some e"
  shows "scan (InString acc) found (0x5C # e # tail) = scan (InString (c # acc)) found tail"
  using assms by (auto simp: short_escape_def unescape_def split: if_splits)

lemma short_escape_None:
  assumes "short_escape c = None"
  shows "c \<noteq> 0x22" and "c \<noteq> 0x5C"
  using assms by (auto simp: short_escape_def split: if_splits)

lemma low_surrogate_plain:
  assumes "is_low_surrogate d"
  shows "d \<noteq> 0x22" and "d \<noteq> 0x5C" and "\<not> d < 0x20"
  using assms by (auto simp: is_low_surrogate_def word_le_nat_alt word_less_nat_alt)

text \<open>Reading the content of a quoted string gives the string back.\<close>

lemma scan_quote_units:
  "scan (InString acc) found (quote_units s @ 0x22 # rest) =
     scan AfterString ((rev acc @ s) # found) rest"
proof (induction s arbitrary: acc rule: quote_units.induct)
  case 1
  show ?case by simp
next
  case (2 c cs)
  show ?case
  proof (cases "short_escape c")
    case (Some e)
    with "2.IH"(6)[OF Some, of "c # acc"] show ?thesis
      by (simp add: short_escape_Some del: scan.simps)
  next
    case None
    note plain = short_escape_None[OF None]
    show ?thesis
    proof (cases "c < 0x20")
      case True
      with None "2.IH"(1)[OF None True, of "c # acc"] show ?thesis
        by (simp add: scan_unicode_escape del: scan.simps)
    next
      case False
      note ge = False
      show ?thesis
      proof (cases "is_high_surrogate c")
        case True
        note high = True
        show ?thesis
        proof (cases cs)
          case Nil
          with None ge high show ?thesis
            using scan_unicode_escape[of acc found c "0x22 # rest"] by simp
        next
          case (Cons d ds)
          show ?thesis
          proof (cases "is_low_surrogate d")
            case True
            from "2.IH"(2)[OF None ge high Cons True, of "d # c # acc"]
            have "scan (InString (d # c # acc)) found (quote_units ds @ 0x22 # rest) =
                scan AfterString ((rev acc @ c # d # ds) # found) rest"
              by simp
            moreover have "scan (InString acc) found (c # d # quote_units ds @ 0x22 # rest) =
                scan (InString (d # c # acc)) found (quote_units ds @ 0x22 # rest)"
              using plain ge low_surrogate_plain[OF True] by simp
            ultimately show ?thesis
              using None ge high Cons True by simp
          next
            case False
            from "2.IH"(3)[OF None ge high Cons False, of "c # acc"] None ge high Cons False
            show ?thesis
              by (simp add: scan_unicode_escape del: scan.simps)
          qed
        qed
      next
        case False
        note nhigh = False
        show ?thesis
        proof (cases "is_low_surrogate c")
          case True
          from "2.IH"(4)[OF None ge nhigh True, of "c # acc"] None ge nhigh True
          show ?thesis
            by (simp add: scan_unicode_escape del: scan.simps)
        next
          case False
          from "2.IH"(5)[OF None ge nhigh False, of "c # acc"] None ge nhigh False plain
          show ?thesis
            by simp
        qed
      qed
    qed
  qed
qed

lemma scan_quoted:
  assumes "st = AfterOpen \<or> st = AfterComma"
  shows "scan st found (QuoteJSONString x @ rest) = scan AfterString (x # found) rest"
proof -
  have "scan st found (0x22 # quote_units x @ 0x22 # rest) =
      scan (InString []) found (quote_units x @ 0x22 # rest)"
    using assms by (auto simp: is_json_ws_def)
  then show ?thesis
    by (simp add: QuoteJSONString_def scan_quote_units)
qed

lemma scan_elements:
  assumes "xs \<noteq> []" and "st = AfterOpen \<or> st = AfterComma"
  shows "scan st found (join_elements xs @ 0x5D # rest) = scan AfterArray (rev xs @ found) rest"
  using assms
proof (induction xs arbitrary: st found rule: join_elements.induct)
  case 1
  then show ?case by simp
next
  case (2 x)
  have "scan st found (QuoteJSONString x @ 0x5D # rest) =
      scan AfterString (x # found) (0x5D # rest)"
    using "2.prems"(2) by (rule scan_quoted)
  then show ?case
    by (simp add: is_json_ws_def)
next
  case (3 x y ys)
  have "scan st found (QuoteJSONString x @ 0x2C # join_elements (y # ys) @ 0x5D # rest) =
      scan AfterString (x # found) (0x2C # join_elements (y # ys) @ 0x5D # rest)"
    using "3.prems"(2) by (rule scan_quoted)
  also have "\<dots> = scan AfterComma (x # found) (join_elements (y # ys) @ 0x5D # rest)"
    by (simp add: is_json_ws_def)
  also have "\<dots> = scan AfterArray (rev (y # ys) @ x # found) rest"
    by (rule "3.IH") simp_all
  finally show ?case by simp
qed

text \<open>Parsing the JSON text of an array of strings gives the array back.\<close>

lemma parse_stringify: "parse_strings (stringify_strings xs) = Some xs"
proof (cases "xs = []")
  case True
  then show ?thesis
    by (simp add: parse_strings_def stringify_strings_def is_json_ws_def)
next
  case False
  have "scan BeforeArray [] (0x5B # join_elements xs @ [0x5D]) =
      scan AfterOpen [] (join_elements xs @ [0x5D])"
    by (simp add: is_json_ws_def)
  also have "\<dots> = scan AfterArray (rev xs @ []) []"
    using False by (intro scan_elements) simp_all
  finally show ?thesis
    by (simp add: parse_strings_def stringify_strings_def)
qed

lemma stringify_not_Nil: "stringify_strings xs \<noteq> []"
  by (simp add: stringify_strings_def)

text \<open>
  Claim C8. For every list of interest strings and every content of the storage before,
  saving the preferences puts the JSON text of the list under the key \<open>interests\<close>,
  and loading from the storage so written gives a list of interests equal to the one
  saved, element by element and in the same order. The list of \<open>music\<close> and \<open>art\<close> is
  saved as the text \<open>["music","art"]\<close> and loaded as the list of \<open>music\<close> and \<open>art\<close>.
\<close>

theorem interests_survive_storage:
  "getItem (save_preferences p st) (lit ''interests'') = Some (stringify_strings (interests p)) \<and>
   map_option interests (load_preferences p0 (save_preferences p st)) = Some (interests p) \<and>
   getItem (save_preferences \<lparr>zip_code = z, interests = [lit ''music'', lit ''art'']\<rparr> st)
       (lit ''interests'') =
     Some (0x5B # 0x22 # lit ''music'' @ 0x22 # 0x2C # 0x22 # lit ''art'' @ [0x22, 0x5D]) \<and>
   map_option interests (load_preferences p0
       (save_preferences \<lparr>zip_code = z, interests = [lit ''music'', lit ''art'']\<rparr> st)) =
     Some [lit ''music'', lit ''art'']"
proof -
  have saved: "getItem (save_preferences q st) (lit ''interests'') =
      Some (stringify_strings (interests q))" for q
    by (simp add: getItem_def save_preferences_def setItem_def)
  have loaded: "map_option interests (load_preferences p0 (save_preferences q st)) =
      Some (interests q)" for q
    by (simp add: load_preferences_def Let_def saved stringify_not_Nil parse_stringify)
  have "stringify_strings [lit ''music'', lit ''art''] =
      0x5B # 0x22 # lit ''music'' @ 0x22 # 0x2C # 0x22 # lit ''art'' @ [0x22, 0x5D]"
    by (simp add: stringify_strings_def QuoteJSONString_def lit_def short_escape_def
        is_high_surrogate_def is_low_surrogate_def)
  with saved[of "\<lparr>zip_code = z, interests = [lit ''music'', lit ''art'']\<rparr>"]
    saved[of p] loaded[of p]
    loaded[of "\<lparr>zip_code = z, interests = [lit ''music'', lit ''art'']\<rparr>"]
  show ?thesis by simp
qed

theorem interests_survive_storage_witness:
  "map_option interests
     (load_preferences \<lparr>zip_code = [], interests = []\<rparr>
        (save_preferences \<lparr>zip_code = lit ''94110'', interests = [lit ''a,b'', [0x22, 0x0A]]\<rparr>
           Map.empty)) =
     Some [lit ''a,b'', [0x22, 0x0A]]"
  using interests_survive_storage
    [of "\<lparr>zip_code = lit ''94110'', interests = [lit ''a,b'', [0x22, 0x0A]]\<rparr>" Map.empty
      "\<lparr>zip_code = [], interests = []\<rparr>"]
  by simp

end
